theory Spec2Isabelle
  imports Main "HOL-Library.AList" "HOL-Library.Multiset"
begin

section \<open>Embedding of \<open>scripts/scan.py\<close>\<close>

text \<open>
  The script drives an external analyzer over a list of crates, parses the text the
  analyzer prints for each crate and folds the parsed effects into summaries.
  Bytes and characters are both modelled by \<^typ>\<open>char\<close>; a byte string and the text
  decoded from it are the same \<^typ>\<open>string\<close> (the analyzer's output is taken to be
  valid UTF-8, so \<open>decode\<close> never raises, and splitting on the ASCII separator
  \<open>", "\<close> gives the same fields on bytes as on the decoded text).
  Python integers are \<^typ>\<open>int\<close>. Every exception the script can raise in the modelled
  paths is a value of \<open>error\<close>. Logging calls have no effect on any value and are left out.
  Assertions are taken as enabled (the interpreter's default).
\<close>

subsection \<open>Errors and outcomes\<close>

datatype error =
    StopIteration
  | IndexError
  | KeyError
  | AssertionError string

text \<open>How a run of the script ends: it runs to the end, calls \<open>sys.exit\<close>, or dies of an
  exception nobody catches.\<close>

datatype outcome = Completed | SysExit int | Raised error

subsection \<open>Constants\<close>

definition CARGO_SCAN_CSV_HEADER :: string where
  "CARGO_SCAN_CSV_HEADER = ''crate, fn_decl, callee, effect, dir, file, line, col''"

definition CARGO_SCAN_METADATA_HEADER :: string where
  "CARGO_SCAN_METADATA_HEADER = ''total, loc_lb, loc_ub, macros, loc_lb, loc_ub, conditional_code, loc_lb, loc_ub, skipped_calls, loc_lb, loc_ub, skipped_fn_ptrs, loc_lb, loc_ub, skipped_other, loc_lb, loc_ub, unsafe_trait, loc_lb, loc_ub, unsafe_impl, loc_lb, loc_ub, pub_fns, pub_fns_with_effects, pub_total_effects''"

subsection \<open>Library functions used by the script\<close>

definition LF :: char where "LF = CHR 0x0A"
definition CR :: char where "CR = CHR 0x0D"

text \<open>\<open>bytes.strip()\<close> removes the ASCII whitespace bytes (space, tab, line feed, vertical
  tab, form feed, carriage return) from both ends.\<close>

definition is_space :: "char \<Rightarrow> bool" where
  "is_space c \<longleftrightarrow> c \<in> set [CHR '' '', CHR 0x09, CHR 0x0A, CHR 0x0B, CHR 0x0C, CHR 0x0D]"

definition strip :: "string \<Rightarrow> string" where
  "strip s = rev (dropWhile is_space (rev (dropWhile is_space s)))"

text \<open>\<open>iter(proc.stdout.readline, b"")\<close>: the successive results of \<open>readline\<close> on a binary
  stream until it returns the empty byte string at end of file. Each line keeps its
  terminating line feed; only the last one may lack it.\<close>

fun readline_iter :: "string \<Rightarrow> string list" where
  "readline_iter [] = []"
| "readline_iter (c # cs) =
     (if c = LF then [c] # readline_iter cs
      else (case readline_iter cs of [] \<Rightarrow> [[c]] | l # ls \<Rightarrow> (c # l) # ls))"

text \<open>\<open>s.split(", ")\<close>: the fields between the non-overlapping occurrences of the
  separator, found from left to right; the result is never empty.\<close>

fun split_comma_space :: "string \<Rightarrow> string list" where
  "split_comma_space [] = [[]]"
| "split_comma_space [c] = [[c]]"
| "split_comma_space (c # d # cs) =
     (if c = CHR '','' \<and> d = CHR '' '' then [] # split_comma_space cs
      else (case split_comma_space (d # cs) of
              [] \<Rightarrow> [[c]]
            | f # fs \<Rightarrow> (c # f) # fs))"

text \<open>\<open>xs[i]\<close> for a non-negative \<open>i\<close>: \<open>IndexError\<close> out of range.\<close>

definition index :: "'a list \<Rightarrow> nat \<Rightarrow> error + 'a" where
  "index xs i = (if i < length xs then Inr (xs ! i) else Inl IndexError)"

text \<open>\<open>next(it)\<close> on an iterator over the remaining items: the item and the rest, or
  \<open>StopIteration\<close>.\<close>

definition next_item :: "'a list \<Rightarrow> error + ('a \<times> 'a list)" where
  "next_item it = (case it of [] \<Rightarrow> Inl StopIteration | x # rest \<Rightarrow> Inr (x, rest))"

subsection \<open>The syn backend: \<open>scan_crate\<close>\<close>

text \<open>The lines as the parser sees them: each result of \<open>readline\<close>, stripped and decoded.\<close>

definition stdout_lines :: "string \<Rightarrow> string list" where
  "stdout_lines out = map strip (readline_iter out)"

text \<open>The loop over the effect lines. It consumes the iterator up to and including the
  first empty line, or to its end; it returns the effects appended so far and what is
  left of the iterator.\<close>

fun read_effects ::
  "string list \<Rightarrow> (string \<times> string) list \<Rightarrow> error + ((string \<times> string) list \<times> string list)" where
  "read_effects [] effects = Inr (effects, [])"
| "read_effects (effect_csv # it) effects =
     (if effect_csv = [] then Inr (effects, it)
      else (case index (split_comma_space effect_csv) 3 of
              Inl e \<Rightarrow> Inl e
            | Inr effect_pat \<Rightarrow> read_effects it (effects @ [(effect_pat, effect_csv)])))"

text \<open>The body of \<open>scan_crate\<close> on the iterator of lines.\<close>

definition scan_lines :: "string list \<Rightarrow> error + ((string \<times> string) list \<times> string)" where
  "scan_lines it0 =
     (case next_item it0 of
        Inl e \<Rightarrow> Inl e
      | Inr (hdr, it1) \<Rightarrow>
          if hdr \<noteq> CARGO_SCAN_CSV_HEADER
          then Inl (AssertionError (''Unexpected header row from scan: '' @ hdr))
          else (case read_effects it1 [] of
                  Inl e \<Rightarrow> Inl e
                | Inr (effects, it2) \<Rightarrow>
                    (case next_item it2 of
                       Inl e \<Rightarrow> Inl e
                     | Inr (hdr2, it3) \<Rightarrow>
                         if hdr2 \<noteq> CARGO_SCAN_METADATA_HEADER
                         then Inl (AssertionError (''Unexpected metadata header from scan: '' @ hdr2))
                         else (case next_item it3 of
                                 Inl e \<Rightarrow> Inl e
                               | Inr (metadata, it4) \<Rightarrow>
                                   (case it4 of
                                      [] \<Rightarrow> Inr (effects, metadata)
                                    | _ # _ \<Rightarrow> Inl (AssertionError ''Unexpected extra output from scan''))))))"

text \<open>\<open>scan_crate\<close>, applied to what the analyzer writes on its standard output for the
  crate (the subprocess is outside the program).\<close>

definition scan_crate :: "string \<Rightarrow> error + ((string \<times> string) list \<times> string)" where
  "scan_crate out = scan_lines (stdout_lines out)"

subsection \<open>Crate lists\<close>

text \<open>\<open>fh.readlines()\<close> on a file opened in text mode with the default \<open>newline=None\<close>:
  a line ends at a line feed, a carriage return, or a carriage return followed by a
  line feed, and each of them is read as one line feed. A last line without a line end
  is a line too.\<close>

fun readlines :: "string \<Rightarrow> string list" where
  "readlines [] = []"
| "readlines [c] = (if c = LF \<or> c = CR then [[LF]] else [[c]])"
| "readlines (c # d # cs) =
     (if c = CR \<and> d = LF then [LF] # readlines cs
      else if c = LF \<or> c = CR then [LF] # readlines (d # cs)
      else (case readlines (d # cs) of
              [] \<Rightarrow> [[c]]
            | l # ls \<Rightarrow> (c # l) # ls))"

text \<open>\<open>count_lines\<close>, applied to the text of the file.\<close>

definition count_lines :: "string \<Rightarrow> bool \<Rightarrow> int" where
  "count_lines cratefile header_row =
     (let result = int (length (readlines cratefile))
      in if header_row then result - 1 else result)"

text \<open>The loop of \<open>get_crate_names\<close> over the rows of the reader, \<open>i\<close> being the index
  of the first row of \<open>rows\<close>.\<close>

fun collect_crates :: "nat \<Rightarrow> string list list \<Rightarrow> string list \<Rightarrow> error + string list" where
  "collect_crates i [] crates = Inr crates"
| "collect_crates i (row # rows) crates =
     (if i > 0
      then (case index row 0 of
              Inl e \<Rightarrow> Inl e
            | Inr name \<Rightarrow> collect_crates (i + 1) rows (crates @ [name]))
      else collect_crates (i + 1) rows crates)"

text \<open>\<open>get_crate_names\<close>. The standard library's \<open>csv.reader\<close> is a parameter: any function
  from the text of the file to its rows, each row a list of fields.\<close>

definition get_crate_names :: "(string \<Rightarrow> string list list) \<Rightarrow> string \<Rightarrow> error + string list" where
  "get_crate_names csv_reader cratefile = collect_crates 0 (csv_reader cratefile) []"

subsection \<open>Dictionaries\<close>

text \<open>A Python dictionary keeps its keys in insertion order, and the reports depend on
  that order, so a dictionary is an association list: \<open>d[k] = v\<close> is
  \<^const>\<open>AList.update\<close>, which overwrites the value of a key in place and appends a new
  key at the end.\<close>

definition dict_get :: "('k \<times> 'v) list \<Rightarrow> 'k \<Rightarrow> error + 'v" where
  "dict_get d k = (case map_of d k of None \<Rightarrow> Inl KeyError | Some v \<Rightarrow> Inr v)"

definition setdefault :: "('k \<times> 'v) list \<Rightarrow> 'k \<Rightarrow> 'v \<Rightarrow> ('k \<times> 'v) list" where
  "setdefault d k v = (case map_of d k of None \<Rightarrow> AList.update k v d | Some _ \<Rightarrow> d)"

text \<open>\<open>d[k] += 1\<close>: reads \<open>d[k]\<close>, which raises \<open>KeyError\<close> for a missing key, then stores.\<close>

definition increment :: "('k \<times> int) list \<Rightarrow> 'k \<Rightarrow> error + ('k \<times> int) list" where
  "increment d k = (case dict_get d k of Inl e \<Rightarrow> Inl e | Inr n \<Rightarrow> Inr (AList.update k (n + 1) d))"

text \<open>\<open>{c: v for c in keys}\<close>\<close>

definition dict_of_keys :: "'k list \<Rightarrow> 'v \<Rightarrow> ('k \<times> 'v) list" where
  "dict_of_keys keys v = foldl (\<lambda>d c. AList.update c v d) [] keys"

text \<open>\<open>sum(d.values())\<close>\<close>

definition sum_values :: "('k \<times> int) list \<Rightarrow> int" where
  "sum_values d = sum_list (map snd d)"

subsection \<open>The main loop\<close>

record summaries =
  results :: "string list"
  crate_summary :: "(string \<times> int) list"
  pattern_summary :: "(string \<times> int) list"
  metadata_summary :: "(string \<times> string) list"

text \<open>The state with which \<open>main\<close> enters its loop over the crates.\<close>

definition initial_summaries :: "string list \<Rightarrow> summaries" where
  "initial_summaries crates =
     \<lparr>results = [],
      crate_summary = dict_of_keys crates 0,
      pattern_summary = [],
      metadata_summary = dict_of_keys crates []\<rparr>"

text \<open>What the world outside answers while one crate is processed: whether the crate's
  directory exists, whether \<open>cargo download\<close> would end with a non-zero status, and what
  the analyzer prints.\<close>

record crate_env =
  target_exists :: bool
  download_fails :: bool
  scan_output :: string

text \<open>\<open>download_crate\<close>: \<open>True\<close> when \<open>subprocess.run(..., check=True)\<close> raises
  \<open>CalledProcessError\<close>.\<close>

definition download_crate :: "crate_env \<Rightarrow> bool \<Rightarrow> bool" where
  "download_crate env test_run =
     (if target_exists env then False
      else if test_run then False
      else download_fails env)"

text \<open>The body of the loop over the effects of one crate. The statements run in the
  source's order, so an exception leaves the state as the statements before it made it.\<close>

definition add_effect :: "string \<Rightarrow> summaries \<Rightarrow> string \<times> string \<Rightarrow> error option \<times> summaries" where
  "add_effect crate s eff =
     (case eff of (eff_pat, eff_csv) \<Rightarrow>
        let s1 = s\<lparr>results := results s @ [eff_csv]\<rparr>
        in (case increment (crate_summary s1) crate of
              Inl e \<Rightarrow> (Some e, s1)
            | Inr cs \<Rightarrow>
                let s2 = s1\<lparr>crate_summary := cs\<rparr>;
                    s3 = s2\<lparr>pattern_summary := setdefault (pattern_summary s2) eff_pat 0\<rparr>
                in (case increment (pattern_summary s3) eff_pat of
                      Inl e \<Rightarrow> (Some e, s3)
                    | Inr ps \<Rightarrow> (None, s3\<lparr>pattern_summary := ps\<rparr>))))"

fun add_effects :: "string \<Rightarrow> (string \<times> string) list \<Rightarrow> summaries \<Rightarrow> error option \<times> summaries" where
  "add_effects crate [] s = (None, s)"
| "add_effects crate (eff # effects) s =
     (case add_effect crate s eff of
        (Some e, s') \<Rightarrow> (Some e, s')
      | (None, s') \<Rightarrow> add_effects crate effects s')"

text \<open>The loop over the crates: how it ends, and the summaries as they are then.\<close>

fun main_loop :: "bool \<Rightarrow> (string \<times> crate_env) list \<Rightarrow> summaries \<Rightarrow> outcome \<times> summaries" where
  "main_loop test_run [] s = (Completed, s)"
| "main_loop test_run ((crate, env) # rest) s =
     (if download_crate env test_run then (SysExit 1, s)
      else (case scan_crate (scan_output env) of
              Inl e \<Rightarrow> (Raised e, s)
            | Inr (effects, metadata) \<Rightarrow>
                (case add_effects crate effects s of
                   (Some e, s') \<Rightarrow> (Raised e, s')
                 | (None, s') \<Rightarrow>
                     main_loop test_run rest
                       (s'\<lparr>metadata_summary := AList.update crate metadata (metadata_summary s')\<rparr>))))"

definition main_scan :: "bool \<Rightarrow> (string \<times> crate_env) list \<Rightarrow> outcome \<times> summaries" where
  "main_scan test_run runs = main_loop test_run runs (initial_summaries (map fst runs))"

text \<open>The sanity check after the loop: \<open>True\<close> when the logic error is logged.\<close>

definition logic_error :: "summaries \<Rightarrow> bool" where
  "logic_error s \<longleftrightarrow> sum_values (crate_summary s) \<noteq> sum_values (pattern_summary s)"

text \<open>Every state the summaries go through during the loop, in order: the state at the
  start of each crate and the state after each effect's iteration.\<close>

fun add_effects_states :: "string \<Rightarrow> (string \<times> string) list \<Rightarrow> summaries \<Rightarrow> summaries list" where
  "add_effects_states crate [] s = []"
| "add_effects_states crate (eff # effects) s =
     (case add_effect crate s eff of
        (Some e, s') \<Rightarrow> [s']
      | (None, s') \<Rightarrow> s' # add_effects_states crate effects s')"

fun main_loop_states :: "bool \<Rightarrow> (string \<times> crate_env) list \<Rightarrow> summaries \<Rightarrow> summaries list" where
  "main_loop_states test_run [] s = [s]"
| "main_loop_states test_run ((crate, env) # rest) s =
     s # (if download_crate env test_run then []
          else (case scan_crate (scan_output env) of
                  Inl e \<Rightarrow> []
                | Inr (effects, metadata) \<Rightarrow>
                    add_effects_states crate effects s @
                    (case add_effects crate effects s of
                       (Some e, s') \<Rightarrow> []
                     | (None, s') \<Rightarrow>
                         main_loop_states test_run rest
                           (s'\<lparr>metadata_summary := AList.update crate metadata (metadata_summary s')\<rparr>))))"

subsection \<open>Reports\<close>

text \<open>\<open>str(n)\<close> for an integer, as an f-string writes it: decimal digits, a minus sign
  before a negative number.\<close>

fun str_nat :: "nat \<Rightarrow> string" where
  "str_nat n =
     (if n < 10 then [''0123456789'' ! n]
      else str_nat (n div 10) @ [''0123456789'' ! (n mod 10)])"

declare str_nat.simps [simp del]

definition str_int :: "int \<Rightarrow> string" where
  "str_int i = (if i < 0 then ''-'' @ str_nat (nat (- i)) else str_nat (nat i))"

text \<open>\<open>sorted(d.items(), key=lambda x: x[1], reverse=True)\<close>. Python's sort is stable, also
  under \<open>reverse=True\<close>: the list is reversed, sorted stably in ascending order of the
  key, and reversed again.\<close>

definition sort_summary_dict :: "('k \<times> 'v::linorder) list \<Rightarrow> ('k \<times> 'v) list" where
  "sort_summary_dict d = rev (sort_key snd (rev d))"

definition make_pattern_summary :: "(string \<times> int) list \<Rightarrow> string" where
  "make_pattern_summary summary =
     (let result = [];
          result = result @ ''===== Patterns ====='' @ [LF];
          result = result @ ''Total instances of each effect pattern:'' @ [LF];
          pattern_sorted = sort_summary_dict summary
      in foldl (\<lambda>result (p, n). result @ p @ '': '' @ str_int n @ [LF]) result pattern_sorted)"

subsection \<open>The entry point before the loop\<close>

datatype log_level = DEBUG | INFO | WARNING | ERROR

text \<open>The verbosity check at the start of \<open>main\<close>. The \<open>count\<close> action of the argument
  parser gives the number of \<open>-v\<close> flags, a natural number. The result is the log
  level, or the way the script ends.\<close>

definition set_verbosity :: "nat \<Rightarrow> outcome + log_level" where
  "set_verbosity verbose =
     (if verbose > 5 then Inl (SysExit 1)
      else (case index [INFO, ERROR, WARNING, INFO, DEBUG] verbose of
              Inl e \<Rightarrow> Inl (Raised e)
            | Inr log_level \<Rightarrow> Inr log_level))"

text \<open>The two ways of naming the crates, of which the argument parser requires exactly
  one: \<open>--crate\<close> with a name, or \<open>--infile\<close> with the path of a list.\<close>

datatype target = Crate string | Infile string

text \<open>What \<open>main\<close> computes from it: \<open>num_crates\<close>, \<open>crates\<close> and \<open>crates_infostr\<close>.
  \<open>file_text\<close> gives the text of the file at a path.\<close>

definition main_crates ::
  "(string \<Rightarrow> string list list) \<Rightarrow> (string \<Rightarrow> string) \<Rightarrow> target \<Rightarrow>
   error + (int \<times> string list \<times> string)" where
  "main_crates csv_reader file_text tgt =
     (case tgt of
        Crate crate \<Rightarrow> Inr (1, [crate], crate)
      | Infile infile \<Rightarrow>
          (let num_crates = count_lines (file_text infile) True
           in (case get_crate_names csv_reader (file_text infile) of
                 Inl e \<Rightarrow> Inl e
               | Inr crates \<Rightarrow>
                   Inr (num_crates, crates,
                        str_int num_crates @ '' crates from '' @ infile))))"

subsection \<open>Concrete inputs\<close>

text \<open>The stream of the specification's scenario: one effect line.\<close>

definition scenario_effect :: string where
  "scenario_effect = ''my_crate, f, g, FileRead, ./, a.rs, 10, 4''"

definition scenario_metadata :: string where
  "scenario_metadata = ''5, 1,1,0,0,0,0,0,0,0,0,0,0,0,0,0,0,0,0,0,1,1,0''"

definition scenario_stream :: string where
  "scenario_stream =
     CARGO_SCAN_CSV_HEADER @ [LF] @
     scenario_effect @ [LF] @
     [LF] @
     CARGO_SCAN_METADATA_HEADER @ [LF] @
     scenario_metadata @ [LF]"

text \<open>The same stream followed by one empty line, by one more line of text, and without
  the empty line between the effect and the metadata header.\<close>

definition trailing_blank_stream :: string where
  "trailing_blank_stream = scenario_stream @ [LF]"

definition trailing_text_stream :: string where
  "trailing_text_stream = scenario_stream @ ''done'' @ [LF]"


text \<open>Streams with a wrong first header and with a wrong metadata header.\<close>

definition bad_header_stream :: string where
  "bad_header_stream = ''crate, fn_decl, callee, effect'' @ [LF] @ [LF]"

definition bad_metadata_header_stream :: string where
  "bad_metadata_header_stream =
     CARGO_SCAN_CSV_HEADER @ [LF] @
     scenario_effect @ [LF] @
     [LF] @
     ''total, loc_lb, loc_ub'' @ [LF] @
     scenario_metadata @ [LF]"

text \<open>A crate whose directory exists and whose analysis prints the given text.\<close>

definition local_crate :: "string \<Rightarrow> crate_env" where
  "local_crate out = \<lparr>target_exists = True, download_fails = False, scan_output = out\<rparr>"

text \<open>A crate list with a header row and three data rows, and the rows a reader of
  comma-separated values finds in it.\<close>

definition example_cratefile :: string where
  "example_cratefile =
     ''name,downloads'' @ [LF] @ ''rand,100'' @ [LF] @ ''syn,90'' @ [LF] @ ''libc,80'' @ [LF]"

definition example_rows :: "string list list" where
  "example_rows =
     [[''name'', ''downloads''], [''rand'', ''100''], [''syn'', ''90''], [''libc'', ''80'']]"

text \<open>Two crates whose analysis prints the scenario stream, and the state of the
  summaries after the effect of the first.\<close>

definition example_runs :: "(string \<times> crate_env) list" where
  "example_runs = [(''a'', local_crate scenario_stream), (''b'', local_crate scenario_stream)]"

definition example_state :: summaries where
  "example_state =
     \<lparr>results = [scenario_effect],
      crate_summary = [(''a'', 1), (''b'', 0)],
      pattern_summary = [(''FileRead'', 1)],
      metadata_summary = [(''a'', []), (''b'', [])]\<rparr>"

text \<open>The rows of a crate list without a header row, and a pattern summary with equal
  counts.\<close>

definition headerless_rows :: "string list list" where
  "headerless_rows = [[''rand'', ''100''], [''syn'', ''90''], [''libc'', ''80'']]"

definition example_summary :: "(string \<times> int) list" where
  "example_summary = [(''FileRead'', 1), (''Unsafe'', 3), (''FFI'', 1), (''PtrDeref'', 3)]"

section \<open>The result stream parser\<close>

text \<open>
  Throughout, the lines of a stream \<open>out\<close> are the elements of \<^term>\<open>stdout_lines out\<close>:
  what \<open>readline\<close> returns, with the white space at both ends removed, the line feed
  included. An empty line is a line of white space only, and a line is compared with a
  header after the white space around it is removed.
\<close>

lemma read_effects_well_formed:
  "\<forall>f\<in>set fs. f \<noteq> [] \<and> 4 \<le> length (split_comma_space f) \<Longrightarrow>
   read_effects (fs @ [] # rest) acc =
     Inr (acc @ map (\<lambda>f. (split_comma_space f ! 3, f)) fs, rest)"
  by (induction fs arbitrary: acc) (auto simp: index_def)



lemma read_effects_pattern:
  "read_effects it acc = Inr (effects, rest) \<Longrightarrow>
   \<forall>(pat, csv)\<in>set acc. csv \<in> A \<and> index (split_comma_space csv) 3 = Inr pat \<Longrightarrow>
   set it \<subseteq> A \<Longrightarrow>
   \<forall>(pat, csv)\<in>set effects. csv \<in> A \<and> index (split_comma_space csv) 3 = Inr pat"
  by (induction it acc rule: read_effects.induct) (auto split: if_splits sum.splits)

lemma scan_lines_after_effects:
  assumes "\<forall>f\<in>set fs. f \<noteq> [] \<and> 4 \<le> length (split_comma_space f)"
  shows "scan_lines (CARGO_SCAN_CSV_HEADER # fs @ [] # rest) =
     (case rest of
        [] \<Rightarrow> Inl StopIteration
      | hdr2 # it3 \<Rightarrow>
          if hdr2 \<noteq> CARGO_SCAN_METADATA_HEADER
          then Inl (AssertionError (''Unexpected metadata header from scan: '' @ hdr2))
          else (case it3 of
                  [] \<Rightarrow> Inl StopIteration
                | [metadata] \<Rightarrow> Inr (map (\<lambda>f. (split_comma_space f ! 3, f)) fs, metadata)
                | _ # _ # _ \<Rightarrow> Inl (AssertionError ''Unexpected extra output from scan'')))"
  using read_effects_well_formed [OF assms, of rest "[]"]
  by (simp add: scan_lines_def next_item_def split: list.splits)



lemma scan_lines_pattern:
  assumes "scan_lines it = Inr (effects, metadata)"
  shows "\<forall>(pat, csv)\<in>set effects. csv \<in> set it \<and> index (split_comma_space csv) 3 = Inr pat"
proof -
  from assms obtain hdr it1 rest where "it = hdr # it1" "read_effects it1 [] = Inr (effects, rest)"
    by (auto simp: scan_lines_def next_item_def split: list.splits if_splits sum.splits)
  moreover have "set it1 \<subseteq> set it"
    using \<open>it = hdr # it1\<close> by auto
  ultimately show ?thesis
    using read_effects_pattern [of it1 "[]" effects rest "set it"] by simp
qed

lemma scenario_lines:
  "stdout_lines scenario_stream =
     CARGO_SCAN_CSV_HEADER # [scenario_effect] @
     [[], CARGO_SCAN_METADATA_HEADER, scenario_metadata]"
  by code_simp

lemma scenario_effect_fields:
  "split_comma_space scenario_effect =
     [''my_crate'', ''f'', ''g'', ''FileRead'', ''./'', ''a.rs'', ''10'', ''4'']"
  by (simp add: scenario_effect_def)

lemma scenario_effect_well_formed:
  "\<forall>f\<in>set [scenario_effect]. f \<noteq> [] \<and> 4 \<le> length (split_comma_space f)"
  by (simp add: scenario_effect_fields) (simp add: scenario_effect_def)

lemma scenario_effect_not_empty: "scenario_effect \<noteq> []"
  by (simp add: scenario_effect_def)

lemma main_loop_scan_error:
  "scan_crate (scan_output env) = Inl e \<Longrightarrow>
   main_loop test_run ((crate, env) # rest) s =
     (if download_crate env test_run then SysExit 1 else Raised e, s)"
  by simp

text \<open>
  \<^bold>\<open>C3\<close>. A stream whose lines, as the parser reads them, are the effect header, any
  number of effect lines, an empty line, the metadata header and one metadata row, and
  nothing more, parses without error. An effect line is a non-empty line with at least
  the four fields the parser indexes (a record with the header's eight columns has
  them). The effects returned are as many as the non-empty lines between the two
  headers, they carry these lines in stream order, and the metadata returned is the
  metadata row.
\<close>

theorem scan_crate_well_formed:
  assumes "stdout_lines out =
             CARGO_SCAN_CSV_HEADER # fs @ [[], CARGO_SCAN_METADATA_HEADER, metadata]"
    and "\<forall>f\<in>set fs. f \<noteq> [] \<and> 4 \<le> length (split_comma_space f)"
  shows "\<exists>effects. scan_crate out = Inr (effects, metadata) \<and>
           length effects = length (filter (\<lambda>l. l \<noteq> []) (fs @ [[]])) \<and>
           map snd effects = fs"
proof -
  have "scan_crate out = Inr (map (\<lambda>f. (split_comma_space f ! 3, f)) fs, metadata)"
    using scan_lines_after_effects [OF assms(2), of "[CARGO_SCAN_METADATA_HEADER, metadata]"]
    by (simp add: scan_crate_def assms(1))
  moreover have "filter (\<lambda>l. l \<noteq> []) fs = fs"
    using assms(2) by (simp add: filter_id_conv)
  ultimately show ?thesis
    by (simp add: comp_def)
qed

theorem scan_crate_well_formed_witness:
  "\<exists>effects. scan_crate scenario_stream = Inr (effects, scenario_metadata) \<and>
     length effects = 1 \<and> map snd effects = [scenario_effect]"
  using scan_crate_well_formed [OF scenario_lines scenario_effect_well_formed]
  by (simp add: scenario_effect_not_empty)

text \<open>
  \<^bold>\<open>C4\<close>. Whenever the parser returns, every effect it returns pairs a line of the
  stream with the field at index 3, counting from 0, of that line split at
  comma-space: the fourth column, which the header calls \<open>effect\<close>. The scenario
  stream, whose only effect line is \<open>my_crate, f, g, FileRead, ./, a.rs, 10, 4\<close>, gives
  exactly one effect, of pattern \<open>FileRead\<close>.
\<close>

theorem scan_crate_pattern_column:
  "(\<forall>out effects metadata.
      scan_crate out = Inr (effects, metadata) \<longrightarrow>
      (\<forall>(pat, csv)\<in>set effects.
         csv \<in> set (stdout_lines out) \<and> index (split_comma_space csv) 3 = Inr pat)) \<and>
   scan_crate scenario_stream =
     Inr ([(''FileRead'', ''my_crate, f, g, FileRead, ./, a.rs, 10, 4'')], scenario_metadata)"
proof (intro conjI allI impI)
  fix out effects metadata
  assume "scan_crate out = Inr (effects, metadata)"
  then show "\<forall>(pat, csv)\<in>set effects.
               csv \<in> set (stdout_lines out) \<and> index (split_comma_space csv) 3 = Inr pat"
    using scan_lines_pattern [of "stdout_lines out" effects metadata]
    by (simp add: scan_crate_def)
next
  from scan_lines_after_effects [OF scenario_effect_well_formed,
      of "[CARGO_SCAN_METADATA_HEADER, scenario_metadata]"]
  show "scan_crate scenario_stream =
          Inr ([(''FileRead'', ''my_crate, f, g, FileRead, ./, a.rs, 10, 4'')], scenario_metadata)"
    using scenario_lines
    by (simp add: scan_crate_def scenario_effect_fields) (simp add: scenario_effect_def)
qed

theorem scan_crate_pattern_column_witness:
  "scan_crate scenario_stream = Inr ([(''FileRead'', scenario_effect)], scenario_metadata) \<and>
   scenario_effect \<in> set (stdout_lines scenario_stream) \<and>
   index (split_comma_space scenario_effect) 3 = Inr ''FileRead''"
proof -
  have run: "scan_crate scenario_stream =
               Inr ([(''FileRead'', scenario_effect)], scenario_metadata)"
    using scan_crate_pattern_column by (simp add: scenario_effect_def)
  from scan_crate_pattern_column
  have "\<forall>(pat, csv)\<in>set [(''FileRead'', scenario_effect)].
          csv \<in> set (stdout_lines scenario_stream) \<and> index (split_comma_space csv) 3 = Inr pat"
    using run by blast
  with run show ?thesis by simp
qed

lemma bad_header_lines:
  "stdout_lines bad_header_stream = [''crate, fn_decl, callee, effect'', []]"
  by code_simp

lemma bad_metadata_header_lines:
  "stdout_lines bad_metadata_header_stream =
     CARGO_SCAN_CSV_HEADER # [scenario_effect] @ [] # ''total, loc_lb, loc_ub'' # [scenario_metadata]"
  by code_simp

lemma trailing_blank_lines:
  "stdout_lines trailing_blank_stream =
     CARGO_SCAN_CSV_HEADER # [scenario_effect] @
     [] # CARGO_SCAN_METADATA_HEADER # scenario_metadata # [[]]"
  by code_simp

lemma trailing_text_lines:
  "stdout_lines trailing_text_stream =
     CARGO_SCAN_CSV_HEADER # [scenario_effect] @
     [] # CARGO_SCAN_METADATA_HEADER # scenario_metadata # [''done'']"
  by code_simp


lemma headers_differ:
  "''crate, fn_decl, callee, effect'' \<noteq> CARGO_SCAN_CSV_HEADER"
  "''total, loc_lb, loc_ub'' \<noteq> CARGO_SCAN_METADATA_HEADER"
  by (simp_all add: CARGO_SCAN_CSV_HEADER_def CARGO_SCAN_METADATA_HEADER_def)

lemma local_crate_simps:
  "scan_output (local_crate out) = out"
  "download_crate (local_crate out) test_run = False"
  by (simp_all add: local_crate_def download_crate_def)

text \<open>
  \<^bold>\<open>C7\<close>. A first line other than the effect header makes the parser raise the
  assertion error for an unexpected header row. When the first line is the effect
  header and effect lines and the empty line follow, a next line other than the
  metadata header makes it raise the assertion error for an unexpected metadata
  header. When both headers are the expected ones, neither assertion fails: what the
  parser returns depends on the lines after the metadata header only, and it is the
  effects and the metadata row when exactly one line follows.
\<close>

theorem scan_crate_headers:
  "(stdout_lines out = hdr # rest \<and> hdr \<noteq> CARGO_SCAN_CSV_HEADER \<longrightarrow>
      scan_crate out = Inl (AssertionError (''Unexpected header row from scan: '' @ hdr))) \<and>
   (stdout_lines out = CARGO_SCAN_CSV_HEADER # fs @ [] # mhdr # rest \<and>
    (\<forall>f\<in>set fs. f \<noteq> [] \<and> 4 \<le> length (split_comma_space f)) \<and>
    mhdr \<noteq> CARGO_SCAN_METADATA_HEADER \<longrightarrow>
      scan_crate out =
        Inl (AssertionError (''Unexpected metadata header from scan: '' @ mhdr))) \<and>
   (stdout_lines out = CARGO_SCAN_CSV_HEADER # fs @ [] # CARGO_SCAN_METADATA_HEADER # rest \<and>
    (\<forall>f\<in>set fs. f \<noteq> [] \<and> 4 \<le> length (split_comma_space f)) \<longrightarrow>
      scan_crate out =
        (case rest of
           [] \<Rightarrow> Inl StopIteration
         | [metadata] \<Rightarrow> Inr (map (\<lambda>f. (split_comma_space f ! 3, f)) fs, metadata)
         | _ # _ # _ \<Rightarrow> Inl (AssertionError ''Unexpected extra output from scan'')))"
proof (intro conjI impI; elim conjE)
  assume "stdout_lines out = hdr # rest" "hdr \<noteq> CARGO_SCAN_CSV_HEADER"
  then show "scan_crate out = Inl (AssertionError (''Unexpected header row from scan: '' @ hdr))"
    by (simp add: scan_crate_def scan_lines_def next_item_def)
next
  assume "stdout_lines out = CARGO_SCAN_CSV_HEADER # fs @ [] # mhdr # rest"
    and fs: "\<forall>f\<in>set fs. f \<noteq> [] \<and> 4 \<le> length (split_comma_space f)"
    and "mhdr \<noteq> CARGO_SCAN_METADATA_HEADER"
  then show "scan_crate out =
               Inl (AssertionError (''Unexpected metadata header from scan: '' @ mhdr))"
    using scan_lines_after_effects [OF fs, of "mhdr # rest"]
    by (simp add: scan_crate_def)
next
  assume "stdout_lines out = CARGO_SCAN_CSV_HEADER # fs @ [] # CARGO_SCAN_METADATA_HEADER # rest"
    and fs: "\<forall>f\<in>set fs. f \<noteq> [] \<and> 4 \<le> length (split_comma_space f)"
  then show "scan_crate out =
        (case rest of
           [] \<Rightarrow> Inl StopIteration
         | [metadata] \<Rightarrow> Inr (map (\<lambda>f. (split_comma_space f ! 3, f)) fs, metadata)
         | _ # _ # _ \<Rightarrow> Inl (AssertionError ''Unexpected extra output from scan''))"
    using scan_lines_after_effects [OF fs, of "CARGO_SCAN_METADATA_HEADER # rest"]
    by (simp add: scan_crate_def)
qed

theorem scan_crate_headers_witness:
  "scan_crate bad_header_stream =
     Inl (AssertionError ''Unexpected header row from scan: crate, fn_decl, callee, effect'') \<and>
   scan_crate bad_metadata_header_stream =
     Inl (AssertionError ''Unexpected metadata header from scan: total, loc_lb, loc_ub'') \<and>
   scan_crate scenario_stream = Inr ([(''FileRead'', scenario_effect)], scenario_metadata)"
proof (intro conjI)
  show "scan_crate bad_header_stream =
     Inl (AssertionError ''Unexpected header row from scan: crate, fn_decl, callee, effect'')"
    using scan_crate_headers [where out = bad_header_stream
        and hdr = "''crate, fn_decl, callee, effect''" and rest = "[[]]"]
      bad_header_lines headers_differ(1)
    by simp
  show "scan_crate bad_metadata_header_stream =
     Inl (AssertionError ''Unexpected metadata header from scan: total, loc_lb, loc_ub'')"
    using scan_crate_headers [where out = bad_metadata_header_stream
        and fs = "[scenario_effect]" and mhdr = "''total, loc_lb, loc_ub''"
        and rest = "[scenario_metadata]"]
      bad_metadata_header_lines headers_differ(2) scenario_effect_well_formed
    by simp
  show "scan_crate scenario_stream = Inr ([(''FileRead'', scenario_effect)], scenario_metadata)"
    using scan_crate_headers [where out = scenario_stream
        and fs = "[scenario_effect]" and rest = "[scenario_metadata]"]
      scenario_lines scenario_effect_well_formed
    by (simp add: scenario_effect_fields)
qed

text \<open>
  \<^bold>\<open>C5\<close>, for any trailing line. After the metadata row the parser accepts the end
  of the stream only: when the lines up to the metadata row are well formed, it
  returns the effects and the metadata row if nothing follows, and raises the
  assertion error for unexpected extra output if any line follows, empty or not. In
  \<open>main\<close> that error ends the processing of the crate, and of the run, with the
  summaries as they were before the crate.
\<close>

theorem scan_crate_trailing_output:
  assumes "stdout_lines out =
             CARGO_SCAN_CSV_HEADER # fs @ [] # CARGO_SCAN_METADATA_HEADER # metadata # extra"
    and "\<forall>f\<in>set fs. f \<noteq> [] \<and> 4 \<le> length (split_comma_space f)"
  shows "scan_crate out =
           (if extra = [] then Inr (map (\<lambda>f. (split_comma_space f ! 3, f)) fs, metadata)
            else Inl (AssertionError ''Unexpected extra output from scan'')) \<and>
         (extra \<noteq> [] \<and> scan_output env = out \<and> \<not> download_crate env test_run \<longrightarrow>
            main_loop test_run ((crate, env) # rest) s =
              (Raised (AssertionError ''Unexpected extra output from scan''), s))"
proof -
  have scan: "scan_crate out =
           (if extra = [] then Inr (map (\<lambda>f. (split_comma_space f ! 3, f)) fs, metadata)
            else Inl (AssertionError ''Unexpected extra output from scan''))"
    using scan_lines_after_effects [OF assms(2), of "CARGO_SCAN_METADATA_HEADER # metadata # extra"]
    by (cases extra) (simp_all add: scan_crate_def assms(1))
  then show ?thesis
    by (auto simp: main_loop_scan_error)
qed

theorem scan_crate_trailing_output_witness:
  "scan_crate trailing_text_stream = Inl (AssertionError ''Unexpected extra output from scan'') \<and>
   main_loop False [(''my_crate'', local_crate trailing_text_stream)] (initial_summaries [''my_crate'']) =
     (Raised (AssertionError ''Unexpected extra output from scan''), initial_summaries [''my_crate''])"
  using scan_crate_trailing_output [OF trailing_text_lines scenario_effect_well_formed,
      of "local_crate trailing_text_stream" False "''my_crate''" "[]" "initial_summaries [''my_crate'']"]
  by (simp add: local_crate_simps)

text \<open>
  The claim as stated fails: it takes the non-empty trailing lines, and only them, for
  violations. In this stream the single line after the metadata row is empty, and the
  parser raises all the same.
\<close>

theorem trailing_blank_line_counterexample:
  "stdout_lines trailing_blank_stream =
     CARGO_SCAN_CSV_HEADER # [scenario_effect] @
     [] # CARGO_SCAN_METADATA_HEADER # scenario_metadata # [[]] \<and>
   scan_crate trailing_blank_stream =
     Inl (AssertionError ''Unexpected extra output from scan'')"
  using scan_lines_after_effects [OF scenario_effect_well_formed,
      of "[CARGO_SCAN_METADATA_HEADER, scenario_metadata, []]"] trailing_blank_lines
  by (simp add: scan_crate_def)



section \<open>The aggregator\<close>

lemma sum_values_update:
  "sum_values (AList.update k v d) =
     (case map_of d k of None \<Rightarrow> sum_values d + v | Some n \<Rightarrow> sum_values d - n + v)"
  by (induction d) (auto simp: sum_values_def split: option.splits)

lemma increment_sum: "increment d k = Inr d' \<Longrightarrow> sum_values d' = sum_values d + 1"
  by (auto simp: increment_def dict_get_def sum_values_update split: option.splits)

lemma setdefault_sum: "sum_values (setdefault d k 0) = sum_values d"
  by (simp add: setdefault_def sum_values_update split: option.splits)

lemma map_of_setdefault:
  "map_of (setdefault d k v) k = Some (case map_of d k of None \<Rightarrow> v | Some m \<Rightarrow> m)"
  by (simp add: setdefault_def update_conv' split: option.splits)

lemma update_setdefault: "AList.update k w (setdefault d k v) = AList.update k w d"
  by (simp add: setdefault_def split: option.splits)

lemma add_effect_result:
  "add_effect crate s (pat, csv) =
     (case map_of (crate_summary s) crate of
        None \<Rightarrow> (Some KeyError, s\<lparr>results := results s @ [csv]\<rparr>)
      | Some n \<Rightarrow>
          (None, s\<lparr>results := results s @ [csv],
                  crate_summary := AList.update crate (n + 1) (crate_summary s),
                  pattern_summary :=
                    AList.update pat ((case map_of (pattern_summary s) pat of None \<Rightarrow> 0 | Some m \<Rightarrow> m) + 1)
                      (pattern_summary s)\<rparr>))"
  by (simp add: add_effect_def increment_def dict_get_def map_of_setdefault update_setdefault
      split: option.splits)

lemma add_effect_consistent:
  "\<not> logic_error s \<Longrightarrow> \<not> logic_error (snd (add_effect crate s eff))"
  by (cases eff) (auto simp: add_effect_result logic_error_def sum_values_update split: option.splits)

lemma add_effects_states_consistent:
  "\<not> logic_error s \<Longrightarrow> \<forall>s'\<in>set (add_effects_states crate effects s). \<not> logic_error s'"
proof (induction effects arbitrary: s)
  case Nil
  then show ?case by simp
next
  case (Cons eff effects)
  obtain err s1 where step: "add_effect crate s eff = (err, s1)"
    by (cases "add_effect crate s eff")
  then have "\<not> logic_error s1"
    using add_effect_consistent [OF Cons.prems, of crate eff] by simp
  with Cons.IH [of s1] step show ?case
    by (cases err) simp_all
qed

lemma add_effects_consistent:
  "\<not> logic_error s \<Longrightarrow> \<not> logic_error (snd (add_effects crate effects s))"
proof (induction effects arbitrary: s)
  case Nil
  then show ?case by simp
next
  case (Cons eff effects)
  obtain err s1 where step: "add_effect crate s eff = (err, s1)"
    by (cases "add_effect crate s eff")
  then have "\<not> logic_error s1"
    using add_effect_consistent [OF Cons.prems, of crate eff] by simp
  with Cons.IH [of s1] step show ?case
    by (cases err) simp_all
qed

lemma logic_error_metadata [simp]:
  "logic_error (s\<lparr>metadata_summary := m\<rparr>) = logic_error s"
  by (simp add: logic_error_def)

lemma main_loop_states_consistent:
  "\<not> logic_error s \<Longrightarrow> \<forall>s'\<in>set (main_loop_states test_run runs s). \<not> logic_error s'"
proof (induction runs arbitrary: s)
  case Nil
  then show ?case by simp
next
  case (Cons run runs)
  obtain crate env where run: "run = (crate, env)" by (cases run)
  show ?case
  proof (cases "scan_crate (scan_output env)")
    case (Inl e)
    with Cons.prems run show ?thesis by simp
  next
    case (Inr r)
    obtain effects metadata where r: "r = (effects, metadata)" by (cases r)
    obtain err s1 where fold: "add_effects crate effects s = (err, s1)"
      by (cases "add_effects crate effects s")
    have "\<not> logic_error s1"
      using add_effects_consistent [OF Cons.prems, of crate effects] fold by simp
    then have "\<forall>s'\<in>set (main_loop_states test_run runs
                 (s1\<lparr>metadata_summary := AList.update crate metadata (metadata_summary s1)\<rparr>)).
               \<not> logic_error s'"
      by (intro Cons.IH) simp
    with Cons.prems add_effects_states_consistent [OF Cons.prems, of crate effects]
    show ?thesis
      by (auto simp: run Inr r fold split: option.splits)
  qed
qed

lemma main_loop_consistent:
  "\<not> logic_error s \<Longrightarrow> \<not> logic_error (snd (main_loop test_run runs s))"
proof (induction runs arbitrary: s)
  case Nil
  then show ?case by simp
next
  case (Cons run runs)
  obtain crate env where run: "run = (crate, env)" by (cases run)
  show ?case
  proof (cases "scan_crate (scan_output env)")
    case (Inl e)
    with Cons.prems run show ?thesis by simp
  next
    case (Inr r)
    obtain effects metadata where r: "r = (effects, metadata)" by (cases r)
    obtain err s1 where fold: "add_effects crate effects s = (err, s1)"
      by (cases "add_effects crate effects s")
    have s1: "\<not> logic_error s1"
      using add_effects_consistent [OF Cons.prems, of crate effects] fold by simp
    then have "\<not> logic_error (snd (main_loop test_run runs
                 (s1\<lparr>metadata_summary := AList.update crate metadata (metadata_summary s1)\<rparr>)))"
      by (intro Cons.IH) simp
    with Cons.prems s1 show ?thesis
      by (auto simp: run Inr r fold split: option.splits)
  qed
qed

lemma dict_of_keys_values:
  "\<forall>p\<in>set d. snd p = v \<Longrightarrow> \<forall>p\<in>set (foldl (\<lambda>d c. AList.update c v d) d keys). snd p = v"
proof (induction keys arbitrary: d)
  case Nil
  then show ?case by simp
next
  case (Cons k keys)
  have "\<forall>p\<in>set (AList.update k v d). snd p = v"
    using Cons.prems by (induction d) auto
  from Cons.IH [OF this] show ?case by simp
qed

lemma sum_values_zero: "\<forall>p\<in>set d. snd p = 0 \<Longrightarrow> sum_values d = 0"
  by (induction d) (auto simp: sum_values_def)

lemma initial_summaries_consistent: "\<not> logic_error (initial_summaries crates)"
  using dict_of_keys_values [of "[]" "0::int" crates]
  by (simp add: logic_error_def initial_summaries_def dict_of_keys_def sum_values_zero)

lemma add_effects_states_last:
  "last (s # add_effects_states crate effects s) = snd (add_effects crate effects s)"
proof (induction effects arbitrary: s)
  case Nil
  then show ?case by simp
next
  case (Cons eff effects)
  obtain err s1 where step: "add_effect crate s eff = (err, s1)"
    by (cases "add_effect crate s eff")
  with Cons.IH [of s1] show ?case
    by (cases err) simp_all
qed

lemma main_loop_states_last:
  "last (main_loop_states test_run runs s) = snd (main_loop test_run runs s)"
proof (induction runs arbitrary: s)
  case Nil
  then show ?case by simp
next
  case (Cons run runs)
  obtain crate env where run: "run = (crate, env)" by (cases run)
  show ?case
  proof (cases "scan_crate (scan_output env)")
    case (Inl e)
    with run show ?thesis by simp
  next
    case (Inr r)
    obtain effects metadata where r: "r = (effects, metadata)" by (cases r)
    obtain err s1 where fold: "add_effects crate effects s = (err, s1)"
      by (cases "add_effects crate effects s")
    have states: "main_loop_states test_run runs s' \<noteq> []" for s'
      by (cases runs) auto
    show ?thesis
    proof (cases "download_crate env test_run")
      case True
      with run show ?thesis by simp
    next
      case False
      show ?thesis
      proof (cases err)
        case None
        with False Cons.IH states show ?thesis
          by (simp add: run Inr r fold)
      next
        case (Some e)
        with False add_effects_states_last [of s crate effects] show ?thesis
          by (simp add: run Inr r fold)
      qed
    qed
  qed
qed

lemma add_effects_keys:
  "fst ` set (crate_summary (snd (add_effects crate effects s))) = fst ` set (crate_summary s)"
proof (induction effects arbitrary: s)
  case Nil
  then show ?case by simp
next
  case (Cons eff effects)
  obtain pat csv where eff: "eff = (pat, csv)" by (cases eff)
  show ?case
  proof (cases "map_of (crate_summary s) crate")
    case None
    then show ?thesis by (simp add: eff add_effect_result)
  next
    case (Some n)
    then have "crate \<in> fst ` set (crate_summary s)"
      by (metis domI dom_map_of_conv_image_fst)
    with Some Cons.IH show ?thesis
      by (auto simp: eff add_effect_result dom_update)
  qed
qed

lemma add_effects_no_error:
  "crate \<in> fst ` set (crate_summary s) \<Longrightarrow> fst (add_effects crate effects s) = None"
proof (induction effects arbitrary: s)
  case Nil
  then show ?case by simp
next
  case (Cons eff effects)
  obtain pat csv where eff: "eff = (pat, csv)" by (cases eff)
  from Cons.prems obtain n where n: "map_of (crate_summary s) crate = Some n"
    by (metis domD dom_map_of_conv_image_fst)
  with Cons.prems Cons.IH show ?case
    by (simp add: eff add_effect_result dom_update)
qed

lemma read_effects_errors: "read_effects it acc = Inl e \<Longrightarrow> e = IndexError"
  by (induction it acc rule: read_effects.induct) (auto simp: index_def split: if_splits)

lemma scan_crate_errors: "scan_crate out \<noteq> Inl KeyError"
  by (auto simp: scan_crate_def scan_lines_def next_item_def
      split: list.splits sum.splits if_splits dest: read_effects_errors)

lemma main_loop_no_KeyError:
  "fst ` set runs \<subseteq> fst ` set (crate_summary s) \<Longrightarrow>
   fst (main_loop test_run runs s) \<noteq> Raised KeyError"
proof (induction runs arbitrary: s)
  case Nil
  then show ?case by simp
next
  case (Cons run runs)
  obtain crate env where run: "run = (crate, env)" by (cases run)
  show ?case
  proof (cases "scan_crate (scan_output env)")
    case (Inl e)
    with scan_crate_errors [of "scan_output env"] run show ?thesis by auto
  next
    case (Inr r)
    obtain effects metadata where r: "r = (effects, metadata)" by (cases r)
    obtain err s1 where fold: "add_effects crate effects s = (err, s1)"
      by (cases "add_effects crate effects s")
    from Cons.prems run have "crate \<in> fst ` set (crate_summary s)" by simp
    from add_effects_no_error [OF this, of effects] fold have err: "err = None" by simp
    have "fst ` set (crate_summary s1) = fst ` set (crate_summary s)"
      using add_effects_keys [of crate effects s] fold by simp
    with Cons.prems have "fst ` set runs \<subseteq>
        fst ` set (crate_summary (s1\<lparr>metadata_summary := AList.update crate metadata (metadata_summary s1)\<rparr>))"
      by simp
    from Cons.IH [OF this] show ?thesis
      by (simp add: run Inr r fold err)
  qed
qed

lemma dict_of_keys_keys: "fst ` set (foldl (\<lambda>d c. AList.update c v d) d keys) = fst ` set d \<union> set keys"
  by (induction keys arbitrary: d) (auto simp: dom_update)

text \<open>
  \<^bold>\<open>C1\<close>. In every state the summaries go through during the loop of \<open>main\<close>, started
  from the summaries \<open>main\<close> builds for its crates, the counts of the pattern summary
  and the counts of the crate summary have the same sum; the last of these states is
  the one the loop ends with, however it ends, and there the sanity check finds no
  logic error. One iteration over an effect adds one to the count of the effect's
  pattern, entered with 0 before if it is new, and adds one to the count of the crate,
  and changes no other count; looking up the crate never fails in \<open>main\<close>.
\<close>

theorem summaries_consistent:
  "(\<forall>s\<in>set (main_loop_states test_run runs (initial_summaries (map fst runs))).
      sum_values (pattern_summary s) = sum_values (crate_summary s)) \<and>
   last (main_loop_states test_run runs (initial_summaries (map fst runs))) =
     snd (main_scan test_run runs) \<and>
   sum_values (pattern_summary (snd (main_scan test_run runs))) =
     sum_values (crate_summary (snd (main_scan test_run runs))) \<and>
   \<not> logic_error (snd (main_scan test_run runs)) \<and>
   fst (main_scan test_run runs) \<noteq> Raised KeyError \<and>
   (\<forall>crate s pat csv s'.
      add_effect crate s (pat, csv) = (None, s') \<longrightarrow>
      (\<exists>n. map_of (crate_summary s) crate = Some n \<and>
           crate_summary s' = AList.update crate (n + 1) (crate_summary s)) \<and>
      pattern_summary s' =
        AList.update pat ((case map_of (pattern_summary s) pat of None \<Rightarrow> 0 | Some m \<Rightarrow> m) + 1)
          (pattern_summary s))"
proof (intro conjI)
  show "\<forall>s\<in>set (main_loop_states test_run runs (initial_summaries (map fst runs))).
          sum_values (pattern_summary s) = sum_values (crate_summary s)"
    using main_loop_states_consistent [OF initial_summaries_consistent]
    by (auto simp: logic_error_def)
  show "last (main_loop_states test_run runs (initial_summaries (map fst runs))) =
          snd (main_scan test_run runs)"
    by (simp add: main_loop_states_last main_scan_def)
  show final: "\<not> logic_error (snd (main_scan test_run runs))"
    using main_loop_consistent [OF initial_summaries_consistent]
    by (simp add: main_scan_def)
  then show "sum_values (pattern_summary (snd (main_scan test_run runs))) =
               sum_values (crate_summary (snd (main_scan test_run runs)))"
    by (simp add: logic_error_def)
  have "fst ` set runs \<subseteq> fst ` set (crate_summary (initial_summaries (map fst runs)))"
    by (simp add: initial_summaries_def dict_of_keys_def dict_of_keys_keys)
  then show "fst (main_scan test_run runs) \<noteq> Raised KeyError"
    unfolding main_scan_def by (rule main_loop_no_KeyError)
  show "\<forall>crate s pat csv s'.
      add_effect crate s (pat, csv) = (None, s') \<longrightarrow>
      (\<exists>n. map_of (crate_summary s) crate = Some n \<and>
           crate_summary s' = AList.update crate (n + 1) (crate_summary s)) \<and>
      pattern_summary s' =
        AList.update pat ((case map_of (pattern_summary s) pat of None \<Rightarrow> 0 | Some m \<Rightarrow> m) + 1)
          (pattern_summary s)"
    by (auto simp: add_effect_result split: option.splits)
qed

lemma example_runs_states:
  "main_loop_states False example_runs (initial_summaries (map fst example_runs)) ! 1 =
     example_state"
  "1 < length (main_loop_states False example_runs (initial_summaries (map fst example_runs)))"
  by code_simp+

theorem summaries_consistent_witness:
  "example_state \<in>
     set (main_loop_states False example_runs (initial_summaries (map fst example_runs))) \<and>
   sum_values (pattern_summary example_state) = sum_values (crate_summary example_state) \<and>
   add_effect ''a'' (initial_summaries (map fst example_runs)) (''FileRead'', scenario_effect) =
     (None, example_state) \<and>
   crate_summary example_state = AList.update ''a'' 1 [(''a'', 0), (''b'', 0)] \<and>
   pattern_summary example_state = AList.update ''FileRead'' 1 []"
proof -
  note inst = summaries_consistent [of False example_runs]
  have "\<forall>s\<in>set (main_loop_states False example_runs (initial_summaries (map fst example_runs))).
          sum_values (pattern_summary s) = sum_values (crate_summary s)"
    using inst by (rule conjunct1)
  moreover have state: "example_state \<in>
     set (main_loop_states False example_runs (initial_summaries (map fst example_runs)))"
    using nth_mem [OF example_runs_states(2)] example_runs_states(1) by simp
  ultimately have sums:
    "sum_values (pattern_summary example_state) = sum_values (crate_summary example_state)"
    by blast
  have step: "add_effect ''a'' (initial_summaries (map fst example_runs))
                (''FileRead'', scenario_effect) = (None, example_state)"
    by code_simp
  have initial: "crate_summary (initial_summaries (map fst example_runs)) = [(''a'', 0), (''b'', 0)]"
    "pattern_summary (initial_summaries (map fst example_runs)) = []"
    by code_simp+
  from inst step have
    "(\<exists>n. map_of (crate_summary (initial_summaries (map fst example_runs))) ''a'' = Some n \<and>
          crate_summary example_state =
            AList.update ''a'' (n + 1) (crate_summary (initial_summaries (map fst example_runs)))) \<and>
     pattern_summary example_state =
       AList.update ''FileRead''
         ((case map_of (pattern_summary (initial_summaries (map fst example_runs))) ''FileRead'' of
             None \<Rightarrow> 0 | Some m \<Rightarrow> m) + 1)
         (pattern_summary (initial_summaries (map fst example_runs)))"
    by blast
  then have "crate_summary example_state = AList.update ''a'' 1 [(''a'', 0), (''b'', 0)] \<and>
             pattern_summary example_state = AList.update ''FileRead'' 1 []"
    unfolding initial by auto
  with state sums step show ?thesis by blast
qed

section \<open>Reports\<close>





lemma make_pattern_summary_example:
  "make_pattern_summary example_summary =
     ''===== Patterns ====='' @ [LF] @ ''Total instances of each effect pattern:'' @ [LF] @
     ''Unsafe: 3'' @ [LF] @ ''PtrDeref: 3'' @ [LF] @ ''FileRead: 1'' @ [LF] @ ''FFI: 1'' @ [LF]"
  by code_simp

section \<open>Crate lists\<close>

lemma readlines_line:
  "LF \<notin> set r \<Longrightarrow> CR \<notin> set r \<Longrightarrow> readlines (r @ LF # rest) = (r @ [LF]) # readlines rest"
proof (induction r)
  case Nil
  then show ?case by (cases rest) (simp_all add: LF_def CR_def)
next
  case (Cons c r)
  then show ?case by (cases "r @ LF # rest") auto
qed

lemma readlines_rows:
  "\<forall>r\<in>set rows. LF \<notin> set r \<and> CR \<notin> set r \<Longrightarrow>
   readlines (concat (map (\<lambda>r. r @ [LF]) rows)) = map (\<lambda>r. r @ [LF]) rows"
  by (induction rows) (simp_all add: readlines_line)

text \<open>
  \<^bold>\<open>C9\<close>. \<open>count_lines\<close> with a header row assumed is the number of lines of the file
  minus one. For a file made of a header row and any number of data rows, each ended
  by a line feed, it is the number of data rows, and this is the number of crates
  \<open>main\<close> reports in \<open>crates_infostr\<close>: 3, not 4, for three data rows.
\<close>

theorem count_lines_header_row:
  assumes "\<forall>r\<in>set (header # rows). LF \<notin> set r \<and> CR \<notin> set r"
    and "cratefile = concat (map (\<lambda>r. r @ [LF]) (header # rows))"
  shows "count_lines cratefile True = int (length (readlines cratefile)) - 1 \<and>
         count_lines cratefile True = int (length rows) \<and>
         (\<forall>csv_reader file_text infile num_crates crates crates_infostr.
            file_text infile = cratefile \<and>
            main_crates csv_reader file_text (Infile infile) =
              Inr (num_crates, crates, crates_infostr) \<longrightarrow>
            num_crates = int (length rows) \<and>
            crates_infostr = str_int (int (length rows)) @ '' crates from '' @ infile)"
proof -
  have "readlines cratefile = map (\<lambda>r. r @ [LF]) (header # rows)"
    unfolding assms(2) using assms(1) by (rule readlines_rows)
  then have count: "count_lines cratefile True = int (length rows)"
    by (simp add: count_lines_def)
  then show ?thesis
    by (auto simp: main_crates_def count_lines_def Let_def split: sum.splits)
qed

theorem count_lines_header_row_witness:
  "count_lines example_cratefile True = 3 \<and>
   count_lines example_cratefile True \<noteq> 4 \<and>
   main_crates (\<lambda>_. example_rows) (\<lambda>_. example_cratefile) (Infile ''crates.csv'') =
     Inr (3, [''rand'', ''syn'', ''libc''], ''3 crates from crates.csv'')"
proof -
  have rows: "\<forall>r\<in>set (''name,downloads'' # [''rand,100'', ''syn,90'', ''libc,80'']).
                LF \<notin> set r \<and> CR \<notin> set r"
    by (simp add: LF_def CR_def)
  have contents: "example_cratefile =
      concat (map (\<lambda>r. r @ [LF]) (''name,downloads'' # [''rand,100'', ''syn,90'', ''libc,80'']))"
    by (simp add: example_cratefile_def)
  note inst = count_lines_header_row [OF rows contents]
  have "count_lines example_cratefile True = int (length [''rand,100'', ''syn,90'', ''libc,80''])"
    using inst by (rule conjunct2 [THEN conjunct1])
  then have count: "count_lines example_cratefile True = 3"
    by simp
  have names: "get_crate_names (\<lambda>_. example_rows) example_cratefile =
                 Inr [''rand'', ''syn'', ''libc'']"
    by code_simp
  then obtain num_crates crates_infostr where
    run: "main_crates (\<lambda>_. example_rows) (\<lambda>_. example_cratefile) (Infile ''crates.csv'') =
            Inr (num_crates, [''rand'', ''syn'', ''libc''], crates_infostr)"
    by (simp add: main_crates_def Let_def)
  have "(\<lambda>_. example_cratefile) ''crates.csv'' = example_cratefile \<and>
        main_crates (\<lambda>_. example_rows) (\<lambda>_. example_cratefile) (Infile ''crates.csv'') =
          Inr (num_crates, [''rand'', ''syn'', ''libc''], crates_infostr) \<longrightarrow>
        num_crates = int (length [''rand,100'', ''syn,90'', ''libc,80'']) \<and>
        crates_infostr =
          str_int (int (length [''rand,100'', ''syn,90'', ''libc,80''])) @ '' crates from '' @ ''crates.csv''"
    by (rule inst [THEN conjunct2, THEN conjunct2,
          THEN spec [where x = "\<lambda>_. example_rows"],
          THEN spec [where x = "\<lambda>_. example_cratefile"],
          THEN spec [where x = "''crates.csv''"],
          THEN spec [where x = num_crates],
          THEN spec [where x = "[''rand'', ''syn'', ''libc'']"],
          THEN spec [where x = crates_infostr]])
  with run have reported: "num_crates = int (length [''rand,100'', ''syn,90'', ''libc,80'']) \<and>
      crates_infostr =
        str_int (int (length [''rand,100'', ''syn,90'', ''libc,80''])) @ '' crates from '' @ ''crates.csv''"
    by (elim impE) (rule conjI, rule refl, assumption)
  have digits: "str_int 3 = ''3''"
    by code_simp
  from reported have "num_crates = 3" by simp
  moreover from reported have "crates_infostr = str_int 3 @ '' crates from crates.csv''" by simp
  ultimately have "num_crates = 3 \<and> crates_infostr = ''3 crates from crates.csv''"
    by (simp add: digits)
  with count run show ?thesis
    by simp
qed

lemma collect_crates_rows:
  "i > 0 \<Longrightarrow>
   collect_crates i rows crates =
     (if \<forall>r\<in>set rows. r \<noteq> [] then Inr (crates @ map hd rows) else Inl IndexError)"
proof (induction rows arbitrary: i crates)
  case Nil
  then show ?case by simp
next
  case (Cons row rows)
  then show ?case by (cases row) (auto simp: index_def)
qed

text \<open>
  \<^bold>\<open>C10\<close>. Whatever the first row of the list is, \<open>get_crate_names\<close> leaves it out: the
  names it returns are the first fields of the rows after the first, in their order.
  (A row without any field among them, which a reader of comma-separated values
  gives for an empty line, makes it raise \<open>IndexError\<close>; the first row may be such a
  row.) A list whose first row names a crate loses that crate.
\<close>

theorem get_crate_names_skips_first_row:
  "get_crate_names csv_reader cratefile =
     (if \<forall>row\<in>set (tl (csv_reader cratefile)). row \<noteq> []
      then Inr (map hd (tl (csv_reader cratefile)))
      else Inl IndexError)"
proof (cases "csv_reader cratefile")
  case Nil
  then show ?thesis by (simp add: get_crate_names_def)
next
  case (Cons first rows)
  with collect_crates_rows [of 1 rows "[]"] show ?thesis
    by (auto simp: get_crate_names_def)
qed

theorem get_crate_names_skips_first_row_witness:
  "hd headerless_rows = [''rand'', ''100''] \<and>
   get_crate_names (\<lambda>_. headerless_rows) [] = Inr [''syn'', ''libc'']"
  using get_crate_names_skips_first_row [of "\<lambda>_. headerless_rows" "[]"]
  by (simp add: headerless_rows_def)

section \<open>Verbosity\<close>

lemma set_verbosity_cases:
  "set_verbosity verbose =
     (if verbose \<le> 4 then Inr ([INFO, ERROR, WARNING, INFO, DEBUG] ! verbose)
      else if verbose = 5 then Inl (Raised IndexError)
      else Inl (SysExit 1))"
  by (auto simp: set_verbosity_def index_def)


end
